theory Spec2Isabelle
  imports Complex_Main
begin

section \<open>Python values used by the document pipeline\<close>

text \<open>
  A Python \<open>str\<close> is a sequence of Unicode code points and \<open>len\<close> counts code points,
  so a string is modelled as the list of its code points. \<open>str\<close> turns an ASCII literal
  into that representation. Python integers are unbounded: \<open>int\<close>. A definition has
  the name of the source function it embeds, without the leading underscore of a
  private method.
\<close>

type_synonym pystr = "nat list"

definition str :: "string \<Rightarrow> pystr" where
  "str s = map of_char s"

definition len :: "'a list \<Rightarrow> int" where
  "len xs = int (length xs)"

datatype py_error = ZeroDivisionError | IndexError | ValueError | Exception

text \<open>
  \<open>str.isspace\<close> for one code point: the code points CPython classifies as whitespace
  (bidirectional class WS, B or S, or category Zs).
\<close>

definition py_isspace :: "nat \<Rightarrow> bool" where
  "py_isspace c =
     ((9 \<le> c \<and> c \<le> 13) \<or> (28 \<le> c \<and> c \<le> 32) \<or> c = 133 \<or> c = 160 \<or> c = 5760
      \<or> (8192 \<le> c \<and> c \<le> 8202) \<or> c = 8232 \<or> c = 8233 \<or> c = 8239 \<or> c = 8287
      \<or> c = 12288)"

text \<open>\<open>s.strip()\<close>: leading and trailing whitespace removed.\<close>

definition strip :: "pystr \<Rightarrow> pystr" where
  "strip s = rev (dropWhile py_isspace (rev (dropWhile py_isspace s)))"

text \<open>
  \<open>s.split()\<close> without argument: the maximal runs of non-whitespace code points, in
  order; \<open>cur\<close> is the token being read.
\<close>

fun split_ws_from :: "pystr \<Rightarrow> pystr \<Rightarrow> pystr list" where
  "split_ws_from cur [] = (if cur = [] then [] else [cur])"
| "split_ws_from cur (c # cs) =
     (if py_isspace c
      then (if cur = [] then split_ws_from [] cs else cur # split_ws_from [] cs)
      else split_ws_from (cur @ [c]) cs)"

definition split_ws :: "pystr \<Rightarrow> pystr list" where
  "split_ws s = split_ws_from [] s"

text \<open>
  \<open>s.split(sep)\<close> for a one-character separator: empty fields are kept and the result
  is never the empty list.
\<close>

fun split_on :: "nat \<Rightarrow> pystr \<Rightarrow> pystr list" where
  "split_on sep [] = [[]]"
| "split_on sep (c # cs) =
     (if c = sep then [] # split_on sep cs
      else (case split_on sep cs of
              [] \<Rightarrow> [[c]]
            | w # ws \<Rightarrow> (c # w) # ws))"

text \<open>\<open>sep.join(xs)\<close>.\<close>

fun join :: "pystr \<Rightarrow> pystr list \<Rightarrow> pystr" where
  "join sep [] = []"
| "join sep [x] = x"
| "join sep (x # y # ys) = x @ sep @ join sep (y # ys)"

text \<open>\<open>xs[i]\<close> with Python's negative indices; out of range raises IndexError.\<close>

definition index :: "'a list \<Rightarrow> int \<Rightarrow> py_error + 'a" where
  "index xs i =
     (if 0 \<le> i \<and> i < len xs then Inr (xs ! nat i)
      else if i < 0 \<and> 0 \<le> len xs + i then Inr (xs ! nat (len xs + i))
      else Inl IndexError)"

text \<open>
  \<open>a / b\<close> on integers: true division, ZeroDivisionError for a zero divisor. The quotient
  is kept exact; the only use compares it with \<open>0.5\<close>, and for operands below \<open>2 ^ 52\<close>
  the correctly rounded double is above \<open>0.5\<close> exactly when the exact quotient is.
\<close>

definition truediv :: "int \<Rightarrow> int \<Rightarrow> py_error + rat" where
  "truediv a b = (if b = 0 then Inl ZeroDivisionError else Inr (of_int a / of_int b))"

text \<open>\<open>str(n)\<close> for an integer: decimal digits, a minus sign for a negative number.\<close>

fun str_nat :: "nat \<Rightarrow> pystr" where
  "str_nat n = (if n < 10 then [48 + n] else str_nat (n div 10) @ [48 + n mod 10])"

declare str_nat.simps [simp del]

definition str_int :: "int \<Rightarrow> pystr" where
  "str_int i = (if i < 0 then 45 # str_nat (nat (- i)) else str_nat (nat i))"


section \<open>OCR service (services/ocr\_service.py)\<close>

text \<open>
  \<open>OCRService._is_poor_result\<close>. The generator expression counts the one-character
  tokens; the division is the one that would raise on an empty token list.
\<close>

definition is_poor_result :: "pystr \<Rightarrow> py_error + bool" where
  "is_poor_result text =
     (if text = [] \<or> len (strip text) < 10 then Inr True
      else let words = split_ws text in
        if words = [] then Inr True
        else let single_chars = len (filter (\<lambda>w. len w = 1) words) in
          (case truediv single_chars (len words) of
             Inl e \<Rightarrow> Inl e
           | Inr q \<Rightarrow> if q > 1 / 2 then Inr True else Inr False))"


text \<open>
  What the service asks of Pillow, OpenCV and Tesseract is a parameter: each external
  call either returns a value or raises (\<open>None\<close>).
  \<^item> \<open>open_image\<close>: \<open>Image.open\<close>, the conversion to RGB, \<open>np.array\<close> and \<open>cv2.cvtColor\<close>
    of \<open>_load_image\<close>;
  \<^item> \<open>image_to_string img lang config\<close>: the colour conversion, \<open>Image.fromarray\<close> and
    \<open>pytesseract.image_to_string\<close> of \<open>_ocr_image\<close>;
  \<^item> \<open>shape\<close>: the height and the width read from \<open>img.shape[:2]\<close>;
  \<^item> \<open>resize\<close>: \<open>cv2.resize\<close> with both factors 2.0 and cubic interpolation;
  \<^item> \<open>enhance_ops\<close>: the steps of \<open>_enhance_for_ocr\<close> after the resize: grayscale,
    denoising, CLAHE, Otsu threshold and the conversion back to BGR.
\<close>

record ('b, 'i) ocr_backend =
  open_image :: "'b \<Rightarrow> 'i option"
  image_to_string :: "'i \<Rightarrow> pystr \<Rightarrow> pystr \<Rightarrow> pystr option"
  shape :: "'i \<Rightarrow> (int \<times> int) option"
  resize :: "'i \<Rightarrow> 'i option"
  enhance_ops :: "'i \<Rightarrow> 'i option"

text \<open>\<open>_load_image\<close>: logs and re-raises.\<close>

definition load_image :: "('b, 'i) ocr_backend \<Rightarrow> 'b \<Rightarrow> py_error + 'i" where
  "load_image B image_content =
     (case open_image B image_content of
        None \<Rightarrow> Inl Exception
      | Some img_array \<Rightarrow> Inr img_array)"

text \<open>\<open>_ocr_image\<close>: the recognised text stripped, the empty string when anything raises.\<close>

definition ocr_image :: "('b, 'i) ocr_backend \<Rightarrow> 'i \<Rightarrow> pystr \<Rightarrow> pystr" where
  "ocr_image B img lang =
     (case image_to_string B img lang (str ''--oem 3 --psm 6'') of
        None \<Rightarrow> []
      | Some t \<Rightarrow> strip t)"

text \<open>
  \<open>_enhance_for_ocr\<close>. The resize rebinds \<open>img\<close> inside the \<open>try\<close>, and the handler
  returns \<open>img\<close>: the original image when the shape or the resize raises, the resized
  image when a later step raises.
\<close>

definition enhance_for_ocr :: "('b, 'i) ocr_backend \<Rightarrow> 'i \<Rightarrow> 'i" where
  "enhance_for_ocr B img =
     (case shape B img of
        None \<Rightarrow> img
      | Some (height, width) \<Rightarrow>
          (case (if height < 1000 \<or> width < 1000 then resize B img else Some img) of
             None \<Rightarrow> img
           | Some img' \<Rightarrow>
               (case enhance_ops B img' of
                  None \<Rightarrow> img'
                | Some result \<Rightarrow> result)))"

text \<open>
  \<open>extract_text\<close>. The whole body is inside \<open>try\<close>, and the handler returns the empty
  string; \<open>enhance and self._is_poor_result(text)\<close> evaluates the gate only when
  \<open>enhance\<close> is true.
\<close>

definition extract_text ::
  "('b, 'i) ocr_backend \<Rightarrow> 'b \<Rightarrow> bool \<Rightarrow> pystr \<Rightarrow> py_error + pystr" where
  "extract_text B image_content enhance language =
     (case load_image B image_content of
        Inl e \<Rightarrow> Inr []
      | Inr img \<Rightarrow>
          let lang_config =
                (if language = str ''vi'' then str ''vie''
                 else if language = str ''en'' \<or> language = str ''code'' then str ''eng''
                 else str ''eng+vie'');
              t = ocr_image B img lang_config
          in (case (if enhance then is_poor_result t else Inr False) of
                Inl e \<Rightarrow> Inr []
              | Inr poor \<Rightarrow>
                  if poor
                  then let img_enhanced = enhance_for_ocr B img;
                           text_enhanced = ocr_image B img_enhanced lang_config
                       in Inr (if len text_enhanced > len t then text_enhanced else t)
                  else Inr t))"


section \<open>Document processor (services/document\_processor.py)\<close>

subsection \<open>Filename metadata\<close>

record BookMetadata =
  book_type :: pystr
  subject :: pystr
  publisher :: pystr
  grade :: pystr
  full_name :: pystr

text \<open>\<open>d.get(key, default)\<close> on a dictionary literal, written as its list of items.\<close>

definition dict_get :: "('k \<times> 'v) list \<Rightarrow> 'k \<Rightarrow> 'v \<Rightarrow> 'v" where
  "dict_get d k dflt = (case map_of d k of None \<Rightarrow> dflt | Some v \<Rightarrow> v)"

text \<open>
  The three tables of \<open>parse_textbook_metadata\<close>. The labels are Vietnamese; each is the
  list of the code points of the source literal (\<open>[ord(c) for c in label]\<close>).
\<close>

definition book_type_map :: "(pystr \<times> pystr) list" where
  "book_type_map =
     [(str ''SGK'', [83, 225, 99, 104, 32, 103, 105, 225, 111, 32, 107, 104, 111, 97]),
      (str ''SBT'', [83, 225, 99, 104, 32, 98, 224, 105, 32, 116, 7853, 112]),
      (str ''STK'', [83, 225, 99, 104, 32, 116, 104, 97, 109, 32, 107, 104, 7843, 111])]"

definition subject_map :: "(pystr \<times> pystr) list" where
  "subject_map =
     [(str ''TIN'', [84, 105, 110, 32, 104, 7885, 99]),
      (str ''TOAN'', [84, 111, 225, 110]),
      (str ''VAN'', [78, 103, 7919, 32, 118, 259, 110]),
      (str ''ANH'', [84, 105, 7871, 110, 103, 32, 65, 110, 104]),
      (str ''LY'', [86, 7853, 116, 32, 108, 253]),
      (str ''HOA'', [72, 243, 97, 32, 104, 7885, 99]),
      (str ''SINH'', [83, 105, 110, 104, 32, 104, 7885, 99]),
      (str ''SU'', [76, 7883, 99, 104, 32, 115, 7917]),
      (str ''DIA'', [272, 7883, 97, 32, 108, 253]),
      (str ''GDCD'',
         [71, 105, 225, 111, 32, 100, 7909, 99, 32, 99, 244, 110, 103, 32, 100, 226, 110])]"

definition publisher_map :: "(pystr \<times> pystr) list" where
  "publisher_map =
     [(str ''CD'', [67, 225, 110, 104, 32, 68, 105, 7873, 117]),
      (str ''KN'', [75, 7871, 116, 32, 78, 7889, 105, 32, 84, 114, 105, 32, 84, 104, 7913, 99]),
      (str ''CT'',
         [67, 104, 226, 110, 32, 84, 114, 7901, 105, 32, 83, 225, 110, 103, 32, 84, 7841, 111]),
      (str ''CK'', [67, 225, 110, 104, 32, 68, 105, 7873, 110]),
      (str ''NXB'', [78, 104, 224, 32, 120, 117, 7845, 116, 32, 98, 7843, 110])]"

text \<open>The prefix of the grade label, \<open>L\<close>, o with horn and acute, \<open>p\<close>, space.\<close>

definition grade_prefix :: pystr where
  "grade_prefix = [76, 7899, 112, 32]"

definition empty_metadata :: BookMetadata where
  "empty_metadata =
     \<lparr>book_type = [], subject = [], publisher = [], grade = [], full_name = []\<rparr>"

text \<open>
  The body of the \<open>try\<close> block: \<open>Inl\<close> is an exception on its way to the handler. The four
  index reads come before the first assignment, so the handler sees the initial
  dictionary.
\<close>

definition parse_body :: "pystr \<Rightarrow> py_error + BookMetadata" where
  "parse_body filename =
     (case index (split_on 46 filename) 0 of
        Inl e \<Rightarrow> Inl e
      | Inr name_without_ext \<Rightarrow>
          let parts = split_on 95 name_without_ext in
          if len parts \<ge> 4
          then (case index parts 0 of Inl e \<Rightarrow> Inl e | Inr book_type_code \<Rightarrow>
                (case index parts 1 of Inl e \<Rightarrow> Inl e | Inr subject_code \<Rightarrow>
                (case index parts 2 of Inl e \<Rightarrow> Inl e | Inr publisher_code \<Rightarrow>
                (case index parts 3 of Inl e \<Rightarrow> Inl e | Inr grade_code \<Rightarrow>
                   let m1 = empty_metadata
                              \<lparr>book_type := dict_get book_type_map book_type_code book_type_code\<rparr>;
                       m2 = m1\<lparr>subject := dict_get subject_map subject_code subject_code\<rparr>;
                       m3 = m2\<lparr>publisher :=
                                  dict_get publisher_map publisher_code publisher_code\<rparr>;
                       m4 = m3\<lparr>grade := grade_prefix @ grade_code\<rparr>
                   in Inr (m4\<lparr>full_name :=
                                 book_type m4 @ [32] @ subject m4 @ [32] @ publisher m4
                                 @ [32] @ grade m4\<rparr>)))))
          else Inr empty_metadata)"

definition parse_textbook_metadata :: "pystr \<Rightarrow> BookMetadata" where
  "parse_textbook_metadata filename =
     (case parse_body filename of
        Inl e \<Rightarrow> empty_metadata\<lparr>full_name := filename\<rparr>
      | Inr metadata \<Rightarrow> metadata)"

subsection \<open>Page-aware extraction\<close>

text \<open>
  The page and chunk dictionaries share \<open>text\<close>, \<open>char_start\<close> and \<open>char_end\<close>, offsets into
  the same full text.
\<close>

record Span =
  "text" :: pystr
  char_start :: int
  char_end :: int

record PageRecord = Span +
  page_number :: int
  ocr_used :: bool

record ChunkRecord = Span +
  pages :: "int list"

text \<open>
  A page of an opened PyMuPDF document: \<open>get_text\<close> is \<open>page.get_text()\<close> and
  \<open>get_pixmap (a, b)\<close> is \<open>page.get_pixmap(matrix=fitz.Matrix(a, b)).tobytes("png")\<close>;
  \<open>None\<close> when the call raises.
\<close>

record 'b pdf_page =
  get_text :: "pystr option"
  get_pixmap :: "int \<times> int \<Rightarrow> 'b option"

text \<open>\<open>_clean_ocr_text\<close>.\<close>

definition clean_ocr_text :: "pystr \<Rightarrow> pystr" where
  "clean_ocr_text t =
     (let lines = map strip (split_on 10 t);
          lines' = filter (\<lambda>line. line \<noteq> []) lines
      in join [10] lines')"

text \<open>\<open>extract_from_image\<close>: enhancement on, language \<open>auto\<close>; an exception is re-raised.\<close>

definition extract_from_image :: "('b, 'i) ocr_backend \<Rightarrow> 'b \<Rightarrow> py_error + pystr" where
  "extract_from_image B image_content =
     (case extract_text B image_content True (str ''auto'') of
        Inl e \<Rightarrow> Inl e
      | Inr t \<Rightarrow> Inr (clean_ocr_text t))"

text \<open>
  The page loop of \<open>extract_from_pdf_with_pages\<close>, with its state: the page index, the
  list \<open>full_text\<close> and the list \<open>page_info\<close>. The offsets are read after the page's
  text has been appended, over \<open>full_text[:-1]\<close>.
\<close>

fun pages_loop ::
  "('b, 'i) ocr_backend \<Rightarrow> 'b pdf_page list \<Rightarrow> int \<Rightarrow> pystr list \<Rightarrow> PageRecord list
   \<Rightarrow> py_error + (pystr list \<times> PageRecord list)" where
  "pages_loop B [] page_num full_text page_info = Inr (full_text, page_info)"
| "pages_loop B (page # rest) page_num full_text page_info =
     (case get_text page of
        None \<Rightarrow> Inl Exception
      | Some t \<Rightarrow>
          (case (if len (strip t) < 50
                 then (case get_pixmap page (2, 2) of
                         None \<Rightarrow> Inl Exception
                       | Some img_data \<Rightarrow> extract_from_image B img_data)
                 else Inr t) of
             Inl e \<Rightarrow> Inl e
           | Inr page_text \<Rightarrow>
               let full_text' = full_text @ [page_text] in
               pages_loop B rest (page_num + 1) full_text'
                 (page_info @
                  [\<lparr>text = page_text,
                    char_start = sum_list (map (\<lambda>t. len t + 2) (butlast full_text')),
                    char_end = sum_list (map (\<lambda>t. len t + 2) (butlast full_text'))
                               + len page_text,
                    page_number = page_num + 1,
                    ocr_used = (len (strip t) < 50)\<rparr>])))"

text \<open>
  \<open>extract_from_pdf_with_pages\<close>; \<open>fitz_open\<close> is \<open>fitz.open(stream=..., filetype="pdf")\<close>,
  the list of the pages of the document, or \<open>None\<close> when it raises.
\<close>

definition extract_from_pdf_with_pages ::
  "('b, 'i) ocr_backend \<Rightarrow> ('b \<Rightarrow> 'b pdf_page list option) \<Rightarrow> 'b
   \<Rightarrow> py_error + (pystr \<times> PageRecord list)" where
  "extract_from_pdf_with_pages B fitz_open file_content =
     (case fitz_open file_content of
        None \<Rightarrow> Inl Exception
      | Some doc \<Rightarrow>
          (case pages_loop B doc 0 [] [] of
             Inl e \<Rightarrow> Inl e
           | Inr (full_text, page_info) \<Rightarrow> Inr (join [10, 10] full_text, page_info)))"

subsection \<open>Chunking\<close>

text \<open>
  \<open>s.find(sub, start)\<close>: the start is adjusted as a slice bound (a negative start counts
  from the end and is clamped at 0); the result is the lowest index at or after it where
  \<open>sub\<close> occurs, or \<open>-1\<close>.
\<close>

fun find_first :: "'a list \<Rightarrow> 'a list \<Rightarrow> nat option" where
  "find_first sub [] = (if sub = [] then Some 0 else None)"
| "find_first sub (x # xs) =
     (if take (length sub) (x # xs) = sub then Some 0
      else map_option Suc (find_first sub xs))"

definition adjust :: "int \<Rightarrow> int \<Rightarrow> int" where
  "adjust n i = (if i < 0 then max 0 (i + n) else i)"

definition find :: "'a list \<Rightarrow> 'a list \<Rightarrow> int \<Rightarrow> int" where
  "find s sub start =
     (let b = adjust (len s) start in
      if b > len s then - 1
      else (case find_first sub (drop (nat b) s) of
              None \<Rightarrow> - 1
            | Some k \<Rightarrow> b + int k))"

text \<open>\<open>s[a:b]\<close>: both bounds adjusted and clamped to the length.\<close>

definition slice :: "'a list \<Rightarrow> int \<Rightarrow> int \<Rightarrow> 'a list" where
  "slice s a b =
     (let lo = min (adjust (len s) a) (len s); hi = min (adjust (len s) b) (len s)
      in take (nat (hi - lo)) (drop (nat lo) s))"

text \<open>\<open>_find_chunk_pages\<close>; \<open>sorted(list(set(xs)))\<close> is \<open>sort (remdups xs)\<close>.\<close>

definition find_chunk_pages :: "int \<Rightarrow> int \<Rightarrow> PageRecord list \<Rightarrow> int list" where
  "find_chunk_pages chunk_start chunk_end page_info =
     sort (remdups (map page_number
       (filter (\<lambda>page. chunk_start < char_end page \<and> chunk_end > char_start page)
          page_info)))"

text \<open>
  The loop of \<open>chunk_text_with_pages\<close> over the chunks of the splitter, with its state
  \<open>current_pos\<close> and the list \<open>chunks_with_pages\<close>.
\<close>

fun chunks_loop ::
  "pystr \<Rightarrow> PageRecord list \<Rightarrow> pystr list \<Rightarrow> int \<Rightarrow> ChunkRecord list \<Rightarrow> ChunkRecord list"
  where
  "chunks_loop txt page_info [] current_pos chunks_with_pages = chunks_with_pages"
| "chunks_loop txt page_info (chunk # chunks) current_pos chunks_with_pages =
     (if len (strip chunk) \<le> 20
      then chunks_loop txt page_info chunks (find txt chunk current_pos + len chunk)
             chunks_with_pages
      else let chunk_start = find txt chunk current_pos;
               chunk_end = chunk_start + len chunk;
               chunk_pages = find_chunk_pages chunk_start chunk_end page_info
           in chunks_loop txt page_info chunks chunk_end
                (chunks_with_pages @
                 [\<lparr>text = chunk, char_start = chunk_start, char_end = chunk_end,
                   pages = chunk_pages\<rparr>]))"

text \<open>The defaults of \<open>config/config.py\<close>.\<close>

definition CHUNK_SIZE :: int where
  "CHUNK_SIZE = 800"

definition CHUNK_OVERLAP :: int where
  "CHUNK_OVERLAP = 150"

text \<open>
  An optional integer argument (\<open>None\<close> by default): its truth value, and \<open>x or d\<close>.
\<close>

definition truthy :: "int option \<Rightarrow> bool" where
  "truthy x = (case x of None \<Rightarrow> False | Some n \<Rightarrow> n \<noteq> 0)"

definition or_default :: "int option \<Rightarrow> int \<Rightarrow> int" where
  "or_default x d = (case x of None \<Rightarrow> d | Some n \<Rightarrow> if n \<noteq> 0 then n else d)"

text \<open>
  The text splitter is the library's \<open>RecursiveCharacterTextSplitter\<close>, a parameter here:
  \<open>split size overlap s\<close> is the result of building the splitter with
  \<open>chunk_size=size\<close>, \<open>chunk_overlap=overlap\<close>, the five separators and
  \<open>length_function=len\<close>, and calling \<open>split_text(s)\<close>; \<open>Inl\<close> when that raises.
\<close>

type_synonym splitter = "int \<Rightarrow> int \<Rightarrow> pystr \<Rightarrow> py_error + pystr list"

definition choose_splitter ::
  "splitter \<Rightarrow> int option \<Rightarrow> int option \<Rightarrow> pystr \<Rightarrow> py_error + pystr list" where
  "choose_splitter split chunk_size chunk_overlap =
     (if truthy chunk_size \<or> truthy chunk_overlap
      then split (or_default chunk_size CHUNK_SIZE) (or_default chunk_overlap CHUNK_OVERLAP)
      else split CHUNK_SIZE CHUNK_OVERLAP)"

definition chunk_text_with_pages ::
  "splitter \<Rightarrow> pystr \<Rightarrow> PageRecord list \<Rightarrow> int option \<Rightarrow> int option
   \<Rightarrow> py_error + ChunkRecord list" where
  "chunk_text_with_pages split txt page_info chunk_size chunk_overlap =
     (case choose_splitter split chunk_size chunk_overlap txt of
        Inl e \<Rightarrow> Inl e
      | Inr chunks \<Rightarrow> Inr (chunks_loop txt page_info chunks 0 []))"

definition chunk_text ::
  "splitter \<Rightarrow> pystr \<Rightarrow> int option \<Rightarrow> int option \<Rightarrow> py_error + pystr list" where
  "chunk_text split txt chunk_size chunk_overlap =
     (case choose_splitter split chunk_size chunk_overlap txt of
        Inl e \<Rightarrow> Inl e
      | Inr chunks \<Rightarrow> Inr (filter (\<lambda>chunk. len (strip chunk) > 20) chunks))"


section \<open>Embedding service (services/embedding\_service.py)\<close>

text \<open>\<open>min(xs)\<close> and \<open>max(xs)\<close>: ValueError on the empty list.\<close>

definition py_min :: "int list \<Rightarrow> py_error + int" where
  "py_min xs = (case xs of [] \<Rightarrow> Inl ValueError | x # r \<Rightarrow> Inr (fold min r x))"

definition py_max :: "int list \<Rightarrow> py_error + int" where
  "py_max xs = (case xs of [] \<Rightarrow> Inl ValueError | x # r \<Rightarrow> Inr (fold max r x))"

text \<open>
  The \<open>page_range\<close> entry of the chunk metadata built by \<open>process_textbook_document\<close>,
  a conditional expression over the chunk's \<open>pages\<close> list.
\<close>

definition page_range :: "int list \<Rightarrow> py_error + pystr" where
  "page_range ps =
     (if len ps > 1
      then (case py_min ps of Inl e \<Rightarrow> Inl e | Inr lo \<Rightarrow>
            (case py_max ps of Inl e \<Rightarrow> Inl e | Inr hi \<Rightarrow>
               Inr (str_int lo @ str ''-'' @ str_int hi)))
      else if ps \<noteq> []
      then (case index ps 0 of Inl e \<Rightarrow> Inl e | Inr p \<Rightarrow> Inr (str ''Trang '' @ str_int p))
      else Inr [])"


section \<open>Predicates of the page loop\<close>

text \<open>
  What the loop does with one page: the native text when its trimmed length is at least
  50, otherwise the cleaned OCR text of the page rendered with \<open>fitz.Matrix(2, 2)\<close>, with
  enhancement on and language \<open>auto\<close>.
\<close>

definition page_extracted ::
  "('b, 'i) ocr_backend \<Rightarrow> 'b pdf_page \<Rightarrow> PageRecord \<Rightarrow> bool" where
  "page_extracted B page r =
     (case get_text page of
        None \<Rightarrow> False
      | Some t \<Rightarrow>
          if len (strip t) < 50
          then ocr_used r
               \<and> (case get_pixmap page (2, 2) of
                      None \<Rightarrow> False
                    | Some img_data \<Rightarrow>
                        (case extract_text B img_data True (str ''auto'') of
                           Inl e \<Rightarrow> False
                         | Inr ocr_text \<Rightarrow> text r = clean_ocr_text ocr_text))
          else \<not> ocr_used r \<and> text r = t)"

text \<open>
  The invariant of the page loop: \<open>n\<close> pages done, \<open>texts\<close> their texts, and each record
  with the offsets of its text in the texts joined by the two-character separator.
\<close>

definition page_invariant :: "int \<Rightarrow> pystr list \<Rightarrow> PageRecord list \<Rightarrow> bool" where
  "page_invariant n texts info =
     (n = len info \<and> map text info = texts
      \<and> list_all (\<lambda>i. char_start (info ! i) = sum_list (map (\<lambda>t. len t + 2) (take i texts))
                      \<and> char_end (info ! i) = char_start (info ! i) + len (texts ! i)
                      \<and> page_number (info ! i) = int i + 1) [0..<length info])"


section \<open>Example inputs\<close>

text \<open>
  Four OCR backends over images named by numbers: one whose recognition raises on the
  small original image 0 and succeeds on its enhanced version 2; one that cannot open
  any image; one whose recognition always raises; and one whose enhancement raises after
  the resize of image 0 to image 1, the only image it recognises.
\<close>

definition first_pass_fails :: "(nat, nat) ocr_backend" where
  "first_pass_fails =
     \<lparr>open_image = (\<lambda>b. Some 0),
      image_to_string =
        (\<lambda>img lang config. if img = 0 then None else Some (str ''hello world ok'')),
      shape = (\<lambda>img. Some (20, 20)),
      resize = (\<lambda>img. Some 1),
      enhance_ops = (\<lambda>img. Some 2)\<rparr>"

definition unreadable_image :: "(nat, nat) ocr_backend" where
  "unreadable_image =
     \<lparr>open_image = (\<lambda>b. None),
      image_to_string = (\<lambda>img lang config. Some (str ''hello world ok'')),
      shape = (\<lambda>img. Some (2000, 2000)),
      resize = (\<lambda>img. Some img),
      enhance_ops = (\<lambda>img. Some img)\<rparr>"

definition recognition_fails :: "(nat, nat) ocr_backend" where
  "recognition_fails =
     \<lparr>open_image = (\<lambda>b. Some 0),
      image_to_string = (\<lambda>img lang config. None),
      shape = (\<lambda>img. Some (2000, 2000)),
      resize = (\<lambda>img. None),
      enhance_ops = (\<lambda>img. None)\<rparr>"

definition enhancement_fails :: "(nat, nat) ocr_backend" where
  "enhancement_fails =
     \<lparr>open_image = (\<lambda>b. Some 0),
      image_to_string =
        (\<lambda>img lang config. if img = 1 then Some (str ''hello world ok'') else None),
      shape = (\<lambda>img. Some (500, 500)),
      resize = (\<lambda>img. Some 1),
      enhance_ops = (\<lambda>img. None)\<rparr>"


text \<open>
  A backend that recognises every image as \<open>scanned page\<close>, and a document of three pages
  of which only the second has less than 50 characters of native text.
\<close>

definition plain_ocr :: "(nat, nat) ocr_backend" where
  "plain_ocr =
     \<lparr>open_image = (\<lambda>b. Some b),
      image_to_string = (\<lambda>img lang config. Some (str ''scanned page'')),
      shape = (\<lambda>img. Some (2000, 2000)),
      resize = (\<lambda>img. None),
      enhance_ops = (\<lambda>img. None)\<rparr>"

definition three_pages :: "nat pdf_page list" where
  "three_pages =
     [\<lparr>get_text = Some (str ''The first page has more than fifty characters of text.''),
       get_pixmap = (\<lambda>m. Some 1)\<rparr>,
      \<lparr>get_text = Some (str ''2''),
       get_pixmap = (\<lambda>m. if m = (2, 2) then Some 2 else None)\<rparr>,
      \<lparr>get_text = Some (str ''The third page also has more than fifty characters of it.''),
       get_pixmap = (\<lambda>m. Some 3)\<rparr>]"

definition open_three_pages :: "nat \<Rightarrow> nat pdf_page list option" where
  "open_three_pages file_content = Some three_pages"

text \<open>
  Two texts with the chunks that \<open>RecursiveCharacterTextSplitter\<close> with
  \<open>chunk_size=30\<close>, \<open>chunk_overlap=10\<close> and the separators of the processor returns for
  them. Neither text has a line break or a full stop inside a paragraph, so a paragraph
  is split at its spaces, each piece keeping the space before it, and the pieces are
  merged while the total stays at most 30; a finished chunk is stripped, and the next
  one starts with the last pieces of at most 10 characters in total. In the first text
  the second chunk starts with the last word of the first chunk. In the second text
  the first paragraph has 38 characters and is split into a chunk of 30 and the
  fragment \<open>echo foxtrot\<close>; the second paragraph, 24 characters with its separator, is one
  chunk. The page records are those of a document with the paragraphs as pages.
\<close>

definition overlap_text :: pystr where
  "overlap_text = str ''alpha bravo charlie delta echo foxtrot golf hotel india''"

definition overlap_split :: splitter where
  "overlap_split csize coverlap s =
     Inr [str ''alpha bravo charlie delta echo'', str ''echo foxtrot golf hotel india'']"

definition overlap_pages :: "PageRecord list" where
  "overlap_pages =
     [\<lparr>text = overlap_text, char_start = 0, char_end = 55, page_number = 1,
       ocr_used = False\<rparr>]"

definition fragment_text :: pystr where
  "fragment_text =
     str ''alpha bravo charlie delta echo foxtrot'' @ [10, 10] @ str ''charlie delta echo fox''"

definition fragment_split :: splitter where
  "fragment_split csize coverlap s =
     Inr [str ''alpha bravo charlie delta echo'', str ''echo foxtrot'',
          str ''charlie delta echo fox'']"

definition fragment_pages :: "PageRecord list" where
  "fragment_pages =
     [\<lparr>text = str ''alpha bravo charlie delta echo foxtrot'', char_start = 0, char_end = 38,
       page_number = 1, ocr_used = False\<rparr>,
      \<lparr>text = str ''charlie delta echo fox'', char_start = 40, char_end = 62,
       page_number = 2, ocr_used = False\<rparr>]"


section \<open>Properties of the OCR quality gate\<close>

lemma split_ws_from_Nil_iff:
  "split_ws_from cur s = [] \<longleftrightarrow> cur = [] \<and> list_all py_isspace s"
  by (induction s arbitrary: cur) auto

lemma dropWhile_all_iff: "(\<forall>x\<in>set (dropWhile P s). P x) \<longleftrightarrow> (\<forall>x\<in>set s. P x)"
proof
  assume a: "\<forall>x\<in>set (dropWhile P s). P x"
  have "dropWhile P s = []"
  proof (rule ccontr)
    assume ne: "dropWhile P s \<noteq> []"
    then have "\<not> P (hd (dropWhile P s))" by (rule hd_dropWhile)
    moreover from ne have "hd (dropWhile P s) \<in> set (dropWhile P s)" by simp
    ultimately show False using a by blast
  qed
  then show "\<forall>x\<in>set s. P x" by (simp add: dropWhile_eq_Nil_conv)
next
  assume "\<forall>x\<in>set s. P x"
  then show "\<forall>x\<in>set (dropWhile P s). P x" by (meson set_dropWhileD)
qed

lemma strip_Nil_iff: "strip s = [] \<longleftrightarrow> list_all py_isspace s"
  by (simp add: strip_def dropWhile_eq_Nil_conv dropWhile_all_iff list_all_iff)

lemma truediv_gt_half:
  "0 < n \<Longrightarrow> truediv k n = Inr q \<Longrightarrow> (q > 1 / 2) = (n < 2 * k)"
proof -
  assume n: "0 < n" and t: "truediv k n = Inr q"
  then have q: "q = of_int k / of_int n" by (auto simp: truediv_def split: if_splits)
  have "(1 / 2 < (of_int k :: rat) / of_int n) = ((of_int n :: rat) < 2 * of_int k)"
    using n by (simp add: field_simps)
  also have "\<dots> = (n < 2 * k)"
    by (metis of_int_less_iff of_int_mult of_int_numeral)
  finally show ?thesis using q by simp
qed

text \<open>
  C7. The quality gate returns a Boolean for every string, and that Boolean is true
  exactly when the trimmed length is below 10 or more than half of the
  whitespace-separated tokens have length one. \<open>a b c d e f\<close> is poor,
  \<open>hello world this is fine\<close> is not (the witness evaluates both).
\<close>

theorem is_poor_result_iff:
  "is_poor_result s =
     Inr (len (strip s) < 10
          \<or> len (split_ws s) < 2 * len (filter (\<lambda>w. len w = 1) (split_ws s)))"
proof (cases "len (strip s) < 10")
  case True
  then show ?thesis by (simp add: is_poor_result_def)
next
  case False
  then have ne: "strip s \<noteq> []" by (auto simp: len_def)
  then have "\<not> list_all py_isspace s" by (simp add: strip_Nil_iff)
  then have words: "split_ws s \<noteq> []"
    by (simp add: split_ws_def split_ws_from_Nil_iff)
  then have pos: "0 < len (split_ws s)" by (simp add: len_def)
  from ne have tne: "s \<noteq> []" by (auto simp: strip_def)
  obtain q where q: "truediv (len (filter (\<lambda>w. len w = 1) (split_ws s)))
      (len (split_ws s)) = Inr q"
    using pos by (auto simp: truediv_def)
  from truediv_gt_half [OF pos q] False tne words q show ?thesis
    by (simp add: is_poor_result_def Let_def)
qed

theorem is_poor_result_iff_witness:
  "is_poor_result (str ''a b c d e f'') = Inr True
   \<and> is_poor_result (str ''hello world this is fine'') = Inr False"
  using is_poor_result_iff [of "str ''a b c d e f''"]
    is_poor_result_iff [of "str ''hello world this is fine''"]
  by (simp add: str_def strip_def split_ws_def py_isspace_def len_def)

text \<open>
  C10. The classifier is total: it returns a Boolean and never an error for every
  string, so the division never sees an empty token list; and a string of whitespace
  only (the empty string included) has no token and is classified poor.
\<close>

theorem is_poor_result_total:
  "(\<exists>b. is_poor_result s = Inr b)
   \<and> (list_all py_isspace s \<longrightarrow> split_ws s = [] \<and> is_poor_result s = Inr True)"
proof -
  have total: "\<exists>b. is_poor_result s = Inr b"
    by (auto simp: is_poor_result_def Let_def truediv_def len_def)
  have blank: "split_ws s = [] \<and> is_poor_result s = Inr True"
    if "list_all py_isspace s"
  proof -
    from that have "strip s = []" by (simp add: strip_Nil_iff)
    with that show ?thesis
      by (simp add: is_poor_result_def split_ws_def split_ws_from_Nil_iff len_def)
  qed
  from total blank show ?thesis by blast
qed


theorem is_poor_result_total_witness:
  "list_all py_isspace (str '' '') \<and> split_ws (str '' '') = []
   \<and> is_poor_result (str '' '') = Inr True \<and> is_poor_result [] = Inr True"
  using is_poor_result_total [of "str '' ''"] is_poor_result_total [of "[]"]
  by (simp add: str_def py_isspace_def)


section \<open>Properties of OCR extraction\<close>

lemma is_poor_result_Inr: "\<exists>b. is_poor_result s = Inr b"
  by (auto simp: is_poor_result_def Let_def truediv_def len_def)

lemma is_poor_result_Nil: "is_poor_result [] = Inr True"
  by (simp add: is_poor_result_def)

text \<open>
  C9, as the code has it. \<open>extract_text\<close> returns a string for every backend, image,
  \<open>enhance\<close> flag and language: no exception leaves it. An image that cannot be loaded
  gives the empty string. A recognition call that raises makes \<open>_ocr_image\<close> return the
  empty string for that pass. When the first pass raises at the language configuration
  of the run, the result is the empty string with \<open>enhance\<close> off and the text of the pass
  on the enhanced image with \<open>enhance\<close> on; it is the empty string when that pass raises
  as well.
\<close>

theorem extract_text_absorbs:
  assumes "lang_config =
             (if language = str ''vi'' then str ''vie''
              else if language = str ''en'' \<or> language = str ''code'' then str ''eng''
              else str ''eng+vie'')"
  shows "(\<exists>t. extract_text B image_content enhance language = Inr t)
   \<and> (open_image B image_content = None
        \<longrightarrow> extract_text B image_content enhance language = Inr [])
   \<and> (image_to_string B img lang (str ''--oem 3 --psm 6'') = None \<longrightarrow> ocr_image B img lang = [])
   \<and> (open_image B image_content = Some img
        \<and> image_to_string B img lang_config (str ''--oem 3 --psm 6'') = None
        \<longrightarrow> extract_text B image_content enhance language =
              Inr (if enhance then ocr_image B (enhance_for_ocr B img) lang_config else []))
   \<and> (open_image B image_content = Some img
        \<and> image_to_string B img lang_config (str ''--oem 3 --psm 6'') = None
        \<and> (enhance \<longrightarrow>
              image_to_string B (enhance_for_ocr B img) lang_config (str ''--oem 3 --psm 6'')
              = None)
        \<longrightarrow> extract_text B image_content enhance language = Inr [])"
proof -
  have total: "\<exists>t. extract_text B image_content enhance language = Inr t"
    using is_poor_result_Inr
    by (auto simp: extract_text_def Let_def split: sum.splits)
  have load: "extract_text B image_content enhance language = Inr []"
    if "open_image B image_content = None"
    using that by (simp add: extract_text_def load_image_def)
  have pass: "ocr_image B img lang = []"
    if "image_to_string B img lang (str ''--oem 3 --psm 6'') = None"
    using that by (simp add: ocr_image_def)
  have first: "extract_text B image_content enhance language =
      Inr (if enhance then ocr_image B (enhance_for_ocr B img) lang_config else [])"
    if "open_image B image_content = Some img
        \<and> image_to_string B img lang_config (str ''--oem 3 --psm 6'') = None"
  proof -
    from that have "ocr_image B img lang_config = []" by (simp add: ocr_image_def)
    with that show ?thesis
      unfolding assms
      by (simp add: extract_text_def load_image_def Let_def is_poor_result_Nil len_def)
  qed
  have both: "extract_text B image_content enhance language = Inr []"
    if "open_image B image_content = Some img
        \<and> image_to_string B img lang_config (str ''--oem 3 --psm 6'') = None
        \<and> (enhance \<longrightarrow>
              image_to_string B (enhance_for_ocr B img) lang_config (str ''--oem 3 --psm 6'')
              = None)"
  proof -
    from that have "enhance \<longrightarrow> ocr_image B (enhance_for_ocr B img) lang_config = []"
      by (simp add: ocr_image_def)
    with first that show ?thesis by simp
  qed
  from total load pass first both show ?thesis by blast
qed

theorem extract_text_absorbs_witness:
  "open_image unreadable_image 7 = None
   \<and> extract_text unreadable_image 7 True (str ''auto'') = Inr []
   \<and> image_to_string recognition_fails 0 (str ''eng+vie'') (str ''--oem 3 --psm 6'') = None
   \<and> ocr_image recognition_fails 0 (str ''eng+vie'') = []
   \<and> open_image recognition_fails 7 = Some 0
   \<and> enhance_for_ocr recognition_fails 0 = 0
   \<and> extract_text recognition_fails 7 True (str ''auto'') = Inr []"
  using extract_text_absorbs [where language = "str ''auto''" and lang_config = "str ''eng+vie''"
      and B = unreadable_image and image_content = 7 and enhance = True and img = 0
      and lang = "str ''eng+vie''"]
    extract_text_absorbs [where language = "str ''auto''" and lang_config = "str ''eng+vie''"
      and B = recognition_fails and image_content = 7 and enhance = True and img = 0
      and lang = "str ''eng+vie''"]
  by (simp add: unreadable_image_def recognition_fails_def enhance_for_ocr_def str_def)

text \<open>
  A failed recognition does not always give the empty string as the result of
  \<open>extract_text\<close>: when the first pass raises, its text is empty, the quality gate
  calls it poor, and the text of the enhanced pass is returned.
\<close>

theorem extract_text_first_pass_failure:
  "image_to_string first_pass_fails 0 (str ''eng+vie'') (str ''--oem 3 --psm 6'') = None
   \<and> extract_text first_pass_fails 0 True (str ''auto'') = Inr (str ''hello world ok'')
   \<and> str ''hello world ok'' \<noteq> []"
  by (simp add: extract_text_def load_image_def ocr_image_def enhance_for_ocr_def
      first_pass_fails_def is_poor_result_Nil str_def strip_def py_isspace_def len_def)

text \<open>
  When a step after the resize raises, the second pass reads the resized image: here
  recognition succeeds on the resized image 1 only.
\<close>

lemma enhancement_failure_keeps_resized:
  "enhance_for_ocr enhancement_fails 0 = 1
   \<and> extract_text enhancement_fails 0 True (str ''auto'') = Inr (str ''hello world ok'')"
  by (simp add: extract_text_def load_image_def ocr_image_def enhance_for_ocr_def
      enhancement_fails_def is_poor_result_Nil str_def strip_def py_isspace_def len_def)


section \<open>Properties of the filename metadata\<close>

lemma split_on_not_Nil: "split_on sep s \<noteq> []"
  by (induction s) (auto split: list.splits)

lemma index_in_range: "i < length xs \<Longrightarrow> index xs (int i) = Inr (xs ! i)"
  by (simp add: index_def len_def Let_def)

lemma parse_body_short:
  "split_on 46 filename = stem # exts \<Longrightarrow> length (split_on 95 stem) < 4
   \<Longrightarrow> parse_body filename = Inr empty_metadata"
  by (simp add: parse_body_def index_def len_def Let_def)

lemma parse_short_filename:
  "split_on 46 filename = stem # exts \<Longrightarrow> length (split_on 95 stem) < 4
   \<Longrightarrow> parse_textbook_metadata filename = empty_metadata"
  by (simp add: parse_textbook_metadata_def parse_body_short)

text \<open>
  C2. For \<open>random.pdf\<close> the stem \<open>random\<close> has one field; the \<open>if\<close> is skipped, nothing
  raises, the handler that stores the filename is not reached, and \<open>full_name\<close> is the
  empty string of the initial dictionary, not \<open>random.pdf\<close>. By
  \<open>parse_short_filename\<close> the same holds for every filename with fewer than four fields.
\<close>

theorem parse_random_pdf:
  "split_on 46 (str ''random.pdf'') = [str ''random'', str ''pdf'']
   \<and> split_on 95 (str ''random'') = [str ''random'']
   \<and> full_name (parse_textbook_metadata (str ''random.pdf'')) = []
   \<and> str ''random.pdf'' \<noteq> []"
  by (simp add: parse_textbook_metadata_def parse_body_def index_def len_def Let_def
      str_def empty_metadata_def)

lemma parse_body_long:
  assumes "split_on 46 filename = stem # exts" and "4 \<le> length (split_on 95 stem)"
  shows "parse_body filename =
     Inr \<lparr>book_type = dict_get book_type_map (split_on 95 stem ! 0) (split_on 95 stem ! 0),
          subject = dict_get subject_map (split_on 95 stem ! 1) (split_on 95 stem ! 1),
          publisher = dict_get publisher_map (split_on 95 stem ! 2) (split_on 95 stem ! 2),
          grade = grade_prefix @ split_on 95 stem ! 3,
          full_name =
            dict_get book_type_map (split_on 95 stem ! 0) (split_on 95 stem ! 0) @ [32]
            @ dict_get subject_map (split_on 95 stem ! 1) (split_on 95 stem ! 1) @ [32]
            @ dict_get publisher_map (split_on 95 stem ! 2) (split_on 95 stem ! 2) @ [32]
            @ grade_prefix @ split_on 95 stem ! 3\<rparr>"
proof -
  let ?parts = "split_on 95 stem"
  have i: "index ?parts 0 = Inr (?parts ! 0)" "index ?parts 1 = Inr (?parts ! 1)"
    "index ?parts 2 = Inr (?parts ! 2)" "index ?parts 3 = Inr (?parts ! 3)"
    using assms(2) by (auto simp: index_def len_def Let_def)
  have s: "index (split_on 46 filename) 0 = Inr stem"
    using assms(1) by (simp add: index_def len_def Let_def)
  from assms(2) have l: "4 \<le> len ?parts" by (simp add: len_def)
  show ?thesis
    unfolding parse_body_def s using i l by (simp add: Let_def empty_metadata_def)
qed

text \<open>
  C5, as the code has it. For a filename with at most one dot, whose stem, the part
  before the dot, has at least four underscore-separated fields, the book type, the
  subject and the publisher are the table's label for a code of the table and the code
  itself otherwise; the grade is the fixed prefix followed by the grade code, whatever
  the code; \<open>full_name\<close> is the four labels joined by single spaces. The witness
  evaluates \<open>SGK_TIN_CD_3.pdf\<close>.
\<close>

theorem parse_four_fields:
  assumes "split_on 46 filename = stem # exts" and "length exts \<le> 1"
    and "split_on 95 stem = parts" and "4 \<le> length parts"
  shows "book_type (parse_textbook_metadata filename) =
           (case map_of book_type_map (parts ! 0) of None \<Rightarrow> parts ! 0 | Some label \<Rightarrow> label)
       \<and> subject (parse_textbook_metadata filename) =
           (case map_of subject_map (parts ! 1) of None \<Rightarrow> parts ! 1 | Some label \<Rightarrow> label)
       \<and> publisher (parse_textbook_metadata filename) =
           (case map_of publisher_map (parts ! 2) of None \<Rightarrow> parts ! 2 | Some label \<Rightarrow> label)
       \<and> grade (parse_textbook_metadata filename) = grade_prefix @ parts ! 3
       \<and> full_name (parse_textbook_metadata filename) =
           join [32] [book_type (parse_textbook_metadata filename),
                      subject (parse_textbook_metadata filename),
                      publisher (parse_textbook_metadata filename),
                      grade (parse_textbook_metadata filename)]"
  using assms(1,3,4) parse_body_long [of filename stem exts]
  by (simp add: parse_textbook_metadata_def dict_get_def del: One_nat_def)

theorem parse_four_fields_witness:
  "split_on 46 (str ''SGK_TIN_CD_3.pdf'') = [str ''SGK_TIN_CD_3'', str ''pdf'']
   \<and> split_on 95 (str ''SGK_TIN_CD_3'') = [str ''SGK'', str ''TIN'', str ''CD'', str ''3'']
   \<and> book_type (parse_textbook_metadata (str ''SGK_TIN_CD_3.pdf'')) =
        [83, 225, 99, 104, 32, 103, 105, 225, 111, 32, 107, 104, 111, 97]
   \<and> subject (parse_textbook_metadata (str ''SGK_TIN_CD_3.pdf'')) =
        [84, 105, 110, 32, 104, 7885, 99]
   \<and> publisher (parse_textbook_metadata (str ''SGK_TIN_CD_3.pdf'')) =
        [67, 225, 110, 104, 32, 68, 105, 7873, 117]
   \<and> grade (parse_textbook_metadata (str ''SGK_TIN_CD_3.pdf'')) = [76, 7899, 112, 32, 51]
   \<and> full_name (parse_textbook_metadata (str ''SGK_TIN_CD_3.pdf'')) =
        [83, 225, 99, 104, 32, 103, 105, 225, 111, 32, 107, 104, 111, 97, 32,
         84, 105, 110, 32, 104, 7885, 99, 32,
         67, 225, 110, 104, 32, 68, 105, 7873, 117, 32,
         76, 7899, 112, 32, 51]"
proof -
  have a: "split_on 46 (str ''SGK_TIN_CD_3.pdf'') = [str ''SGK_TIN_CD_3'', str ''pdf'']"
    by (simp add: str_def)
  have e: "length [str ''pdf''] \<le> 1" by simp
  have b: "split_on 95 (str ''SGK_TIN_CD_3'') = [str ''SGK'', str ''TIN'', str ''CD'', str ''3'']"
    by (simp add: str_def)
  have c: "4 \<le> length [str ''SGK'', str ''TIN'', str ''CD'', str ''3'']" by simp
  from parse_four_fields [OF a e b c] a b show ?thesis
    by (simp add: book_type_map_def subject_map_def publisher_map_def grade_prefix_def str_def)
qed

text \<open>
  Filenames with more than one dot are outside that statement: the stem is cut at the
  first dot, under the comment \<open>Remove file extension\<close>, so a dot inside the name ends it.
\<close>

lemma parse_cuts_at_first_dot:
  "parse_textbook_metadata (str ''v1.SGK_TIN_CD_3.pdf'') = empty_metadata
   \<and> grade (parse_textbook_metadata (str ''SGK_TIN_CD_3.1.pdf'')) = grade_prefix @ str ''3''"
  by (simp add: parse_textbook_metadata_def parse_body_def index_def len_def Let_def
      str_def empty_metadata_def grade_prefix_def)

text \<open>
  The grade has no lookup table and no code is returned unchanged: the grade code \<open>X\<close>
  gives the prefix followed by \<open>X\<close>.
\<close>

theorem parse_grade_not_passed_through:
  "grade (parse_textbook_metadata (str ''SGK_TIN_CD_X.pdf'')) = grade_prefix @ str ''X''
   \<and> grade (parse_textbook_metadata (str ''SGK_TIN_CD_X.pdf'')) \<noteq> str ''X''"
  by (simp add: parse_textbook_metadata_def parse_body_def index_def len_def Let_def
      str_def empty_metadata_def grade_prefix_def)


section \<open>Properties of the page-range label\<close>

lemma fold_min_Min: "fold min r x = Min (set (x # r))"
  by (rule Min.set_eq_fold [symmetric])

lemma fold_max_Max: "fold max r x = Max (set (x # r))"
  by (rule Max.set_eq_fold [symmetric])

text \<open>
  C4, as the code has it. The label of a chunk is the smallest and the largest page
  number separated by a hyphen when the pages list has more than one entry, \<open>Trang\<close>, a
  space and the page number when it has exactly one, and the empty string when it is
  empty; no case raises.
\<close>

theorem page_range_label:
  "(1 < length ps \<longrightarrow>
      page_range ps = Inr (str_int (Min (set ps)) @ str ''-'' @ str_int (Max (set ps))))
   \<and> (ps = [n] \<longrightarrow> page_range ps = Inr (str ''Trang '' @ str_int n))
   \<and> (ps = [] \<longrightarrow> page_range ps = Inr [])"
proof (intro conjI impI)
  assume "1 < length ps"
  then obtain x r where ps: "ps = x # r" and "r \<noteq> []" by (cases ps) auto
  then have "1 < len ps" by (cases r) (simp_all add: len_def)
  then show "page_range ps = Inr (str_int (Min (set ps)) @ str ''-'' @ str_int (Max (set ps)))"
    unfolding page_range_def py_min_def py_max_def ps
    by (simp add: fold_min_Min fold_max_Max del: set_simps)
next
  assume "ps = [n]"
  then show "page_range ps = Inr (str ''Trang '' @ str_int n)"
    by (simp add: page_range_def index_def len_def)
next
  assume "ps = []"
  then show "page_range ps = Inr []" by (simp add: page_range_def len_def)
qed

theorem page_range_label_witness:
  "1 < length [4, 5, 6 :: int] \<and> page_range [4, 5, 6] = Inr (str ''4-6'')
   \<and> page_range [12] = Inr (str ''Trang 12'') \<and> page_range [] = Inr []"
  using page_range_label [of "[4, 5, 6]" 0] page_range_label [of "[12]" 12]
    page_range_label [of "[]" 0]
  by (simp add: str_int_def str_nat.simps str_def)

text \<open>The label of a single page starts with \<open>Trang\<close>, not with \<open>Page\<close>.\<close>

theorem page_range_single_page:
  "page_range [3] = Inr (str ''Trang 3'') \<and> str ''Trang 3'' \<noteq> str ''Page 3''"
  by (simp add: page_range_def index_def len_def str_int_def str_nat.simps str_def)


section \<open>Properties of the page-aware extraction\<close>

text \<open>
  The extraction returns whenever PyMuPDF opens the document, reads the text of each
  page and renders it: the OCR of a page never raises.
\<close>

lemma extract_text_returns: "\<exists>t. extract_text B image_content enhance language = Inr t"
  using is_poor_result_Inr
  by (auto simp: extract_text_def Let_def split: sum.splits)

lemma extract_from_image_returns: "\<exists>t. extract_from_image B image_content = Inr t"
  using extract_text_returns [of B image_content True "str ''auto''"]
  by (auto simp: extract_from_image_def)

lemma pages_loop_returns:
  "\<forall>page \<in> set doc. get_text page \<noteq> None \<and> get_pixmap page (2, 2) \<noteq> None
   \<Longrightarrow> \<exists>r. pages_loop B doc n texts info = Inr r"
proof (induction doc arbitrary: n texts info)
  case Nil
  then show ?case by simp
next
  case (Cons page rest)
  then obtain t img where t: "get_text page = Some t" and g: "get_pixmap page (2, 2) = Some img"
    by auto
  obtain ocr_text where o: "extract_from_image B img = Inr ocr_text"
    using extract_from_image_returns [of B img] by auto
  from Cons.prems have rest: "\<forall>page \<in> set rest. get_text page \<noteq> None \<and> get_pixmap page (2, 2) \<noteq> None"
    by simp
  show ?case using t g o Cons.IH [OF rest] by (simp add: Let_def)
qed

lemma extract_from_pdf_returns:
  "fitz_open file_content = Some doc
   \<Longrightarrow> \<forall>page \<in> set doc. get_text page \<noteq> None \<and> get_pixmap page (2, 2) \<noteq> None
   \<Longrightarrow> \<exists>full recs. extract_from_pdf_with_pages B fitz_open file_content = Inr (full, recs)"
  using pages_loop_returns [of doc B 0 "[]" "[]"]
  by (auto simp: extract_from_pdf_with_pages_def split: sum.splits)

text \<open>The invariant holds at the start and is kept by each page.\<close>

lemma page_invariant_step:
  assumes "page_invariant n texts info"
  shows "page_invariant (n + 1) (texts @ [p])
           (info @ [\<lparr>text = p,
                    char_start = sum_list (map (\<lambda>t. len t + 2) (butlast (texts @ [p]))),
                    char_end = sum_list (map (\<lambda>t. len t + 2) (butlast (texts @ [p]))) + len p,
                    page_number = n + 1, ocr_used = u\<rparr>])"
proof -
  from assms have l: "length texts = length info" and n: "n = int (length info)"
    by (auto simp: page_invariant_def len_def dest: arg_cong [where f = length])
  show ?thesis
    using assms l n
    by (auto simp: page_invariant_def len_def list_all_iff nth_append)
qed

lemma pages_loop_invariant:
  "page_invariant n texts info \<Longrightarrow> pages_loop B doc n texts info = Inr (texts', info')
   \<Longrightarrow> page_invariant (n + len doc) texts' info'"
proof (induction doc arbitrary: n texts info)
  case Nil
  then show ?case by (simp add: len_def)
next
  case (Cons page rest)
  from Cons.prems(2) obtain t where t: "get_text page = Some t"
    by (cases "get_text page") auto
  from Cons.prems(2) t obtain p where
    r: "pages_loop B rest (n + 1) (texts @ [p])
          (info @ [\<lparr>text = p,
                   char_start = sum_list (map (\<lambda>t. len t + 2) (butlast (texts @ [p]))),
                   char_end = sum_list (map (\<lambda>t. len t + 2) (butlast (texts @ [p]))) + len p,
                   page_number = n + 1, ocr_used = (len (strip t) < 50)\<rparr>]) = Inr (texts', info')"
    by (auto simp: Let_def split: sum.splits if_splits option.splits)
  from Cons.IH [OF page_invariant_step [OF Cons.prems(1)] r]
  show ?case by (simp add: len_def ac_simps)
qed

lemma page_invariant_init: "page_invariant 0 [] []"
  by (simp add: page_invariant_def len_def)

lemma sum_take_Suc:
  "i < length xs \<Longrightarrow> sum_list (map f (take (Suc i) xs)) = sum_list (map f (take i xs)) + f (xs ! i)"
  by (simp add: take_Suc_conv_app_nth)

text \<open>
  C3. When \<open>extract_from_pdf_with_pages\<close> returns, every page record has
  \<open>char_end - char_start\<close> equal to the length of its text, the records are in page
  order (record \<open>i\<close> has page number \<open>i + 1\<close>), the \<open>char_end\<close> of a record is the
  \<open>char_start\<close> of the next one minus 2, and the texts of the records joined by the
  two-character separator are the returned full text.
\<close>

theorem page_records_offsets:
  assumes "extract_from_pdf_with_pages B fitz_open file_content = Inr (full, recs)"
  shows "(\<forall>i < length recs. char_end (recs ! i) - char_start (recs ! i) = len (text (recs ! i)))
       \<and> (\<forall>i < length recs. page_number (recs ! i) = int i + 1)
       \<and> (\<forall>i. i + 1 < length recs \<longrightarrow> char_end (recs ! i) = char_start (recs ! (i + 1)) - 2)
       \<and> join [10, 10] (map text recs) = full"
proof -
  from assms obtain doc texts where
    loop: "pages_loop B doc 0 [] [] = Inr (texts, recs)" and full: "full = join [10, 10] texts"
    by (auto simp: extract_from_pdf_with_pages_def split: option.splits sum.splits)
  from pages_loop_invariant [OF page_invariant_init loop]
  have inv: "page_invariant (0 + len doc) texts recs" .
  then have m: "map text recs = texts" by (simp add: page_invariant_def)
  then have l: "length texts = length recs" by (auto dest: arg_cong [where f = length])
  have at: "char_start (recs ! i) = sum_list (map (\<lambda>t. len t + 2) (take i texts))
      \<and> char_end (recs ! i) = char_start (recs ! i) + len (texts ! i)
      \<and> page_number (recs ! i) = int i + 1" if "i < length recs" for i
    using inv that by (simp add: page_invariant_def list_all_iff)
  have tx: "texts ! i = text (recs ! i)" if "i < length recs" for i
    using m that by (metis nth_map)
  have a: "\<forall>i < length recs. char_end (recs ! i) - char_start (recs ! i) = len (text (recs ! i))"
    using at tx by simp
  have b: "\<forall>i < length recs. page_number (recs ! i) = int i + 1"
    using at by simp
  have c: "\<forall>i. i + 1 < length recs \<longrightarrow> char_end (recs ! i) = char_start (recs ! (i + 1)) - 2"
  proof (intro allI impI)
    fix i assume i: "i + 1 < length recs"
    then have "char_start (recs ! (i + 1)) =
        sum_list (map (\<lambda>t. len t + 2) (take i texts)) + (len (texts ! i) + 2)"
      using at [of "i + 1"] l sum_take_Suc [of i texts "\<lambda>t. len t + 2"] by simp
    with at [of i] i show "char_end (recs ! i) = char_start (recs ! (i + 1)) - 2" by simp
  qed
  from a b c m full show ?thesis by simp
qed

lemma extract_three_pages:
  "extract_from_pdf_with_pages plain_ocr open_three_pages 0 =
     Inr (str ''The first page has more than fifty characters of text.'' @ [10, 10]
          @ str ''scanned page'' @ [10, 10]
          @ str ''The third page also has more than fifty characters of it.'',
          [\<lparr>text = str ''The first page has more than fifty characters of text.'',
            char_start = 0, char_end = 54, page_number = 1, ocr_used = False\<rparr>,
           \<lparr>text = str ''scanned page'',
            char_start = 56, char_end = 68, page_number = 2, ocr_used = True\<rparr>,
           \<lparr>text = str ''The third page also has more than fifty characters of it.'',
            char_start = 70, char_end = 127, page_number = 3, ocr_used = False\<rparr>])"
  by (simp add: extract_from_pdf_with_pages_def open_three_pages_def three_pages_def
      plain_ocr_def extract_from_image_def extract_text_def load_image_def ocr_image_def
      is_poor_result_def truediv_def split_ws_def clean_ocr_text_def
      str_def strip_def py_isspace_def len_def Let_def)

theorem page_records_offsets_witness:
  "extract_from_pdf_with_pages plain_ocr open_three_pages 0 =
     Inr (str ''The first page has more than fifty characters of text.'' @ [10, 10]
          @ str ''scanned page'' @ [10, 10]
          @ str ''The third page also has more than fifty characters of it.'',
          [\<lparr>text = str ''The first page has more than fifty characters of text.'',
            char_start = 0, char_end = 54, page_number = 1, ocr_used = False\<rparr>,
           \<lparr>text = str ''scanned page'',
            char_start = 56, char_end = 68, page_number = 2, ocr_used = True\<rparr>,
           \<lparr>text = str ''The third page also has more than fifty characters of it.'',
            char_start = 70, char_end = 127, page_number = 3, ocr_used = False\<rparr>])
   \<and> (54::int) - 0 = len (str ''The first page has more than fifty characters of text.'')
   \<and> (54::int) = 56 - 2 \<and> (68::int) = 70 - 2
   \<and> join [10, 10] [str ''The first page has more than fifty characters of text.'',
         str ''scanned page'',
         str ''The third page also has more than fifty characters of it.''] =
       str ''The first page has more than fifty characters of text.'' @ [10, 10]
          @ str ''scanned page'' @ [10, 10]
          @ str ''The third page also has more than fifty characters of it.''"
  using page_records_offsets [OF extract_three_pages] extract_three_pages
  by (simp add: len_def str_def)

lemma pages_loop_pages:
  "pages_loop B doc n texts info = Inr (texts', info')
   \<Longrightarrow> \<exists>new. info' = info @ new \<and> list_all2 (page_extracted B) doc new"
proof (induction doc arbitrary: n texts info)
  case Nil
  then show ?case by simp
next
  case (Cons page rest)
  from Cons.prems obtain t where t: "get_text page = Some t"
    by (cases "get_text page") auto
  from Cons.prems t obtain p where
    p: "(if len (strip t) < 50
         then (case get_pixmap page (2, 2) of
                 None \<Rightarrow> Inl Exception
               | Some img_data \<Rightarrow> extract_from_image B img_data)
         else Inr t) = Inr p"
    and r: "pages_loop B rest (n + 1) (texts @ [p])
          (info @ [\<lparr>text = p,
                   char_start = sum_list (map (\<lambda>t. len t + 2) (butlast (texts @ [p]))),
                   char_end = sum_list (map (\<lambda>t. len t + 2) (butlast (texts @ [p]))) + len p,
                   page_number = n + 1, ocr_used = (len (strip t) < 50)\<rparr>]) = Inr (texts', info')"
    by (auto simp: Let_def split: sum.splits)
  let ?r = "\<lparr>text = p,
             char_start = sum_list (map (\<lambda>t. len t + 2) (butlast (texts @ [p]))),
             char_end = sum_list (map (\<lambda>t. len t + 2) (butlast (texts @ [p]))) + len p,
             page_number = n + 1, ocr_used = (len (strip t) < 50)\<rparr>"
  have one: "page_extracted B page ?r"
    using t p
    by (auto simp: page_extracted_def extract_from_image_def split: option.splits sum.splits if_splits)
  from Cons.IH [OF r] obtain new where
    new: "info' = (info @ [?r]) @ new" "list_all2 (page_extracted B) rest new" by blast
  then have "info' = info @ (?r # new) \<and> list_all2 (page_extracted B) (page # rest) (?r # new)"
    using one by simp
  then show ?case by blast
qed

text \<open>
  C6. When \<open>extract_from_pdf_with_pages\<close> returns, there is one record per page; a page
  whose native text has a trimmed length below 50 is rendered with the matrix
  \<open>(2, 2)\<close>, the image goes to \<open>extract_text\<close> with enhancement on and language \<open>auto\<close>,
  the record holds the cleaned OCR text and \<open>ocr_used\<close> is true; any other page keeps
  its native text and \<open>ocr_used\<close> is false. For three pages of which only the second is
  below 50, \<open>ocr_used\<close> is false, true, false.
\<close>

theorem scanned_pages_use_ocr:
  assumes "extract_from_pdf_with_pages B fitz_open file_content = Inr (full, recs)"
    and "fitz_open file_content = Some doc"
  shows "length recs = length doc
    \<and> (\<forall>i < length doc. \<exists>t. get_text (doc ! i) = Some t
          \<and> (if len (strip t) < 50
              then ocr_used (recs ! i)
                   \<and> (\<exists>img_data ocr_text. get_pixmap (doc ! i) (2, 2) = Some img_data
                         \<and> extract_text B img_data True (str ''auto'') = Inr ocr_text
                         \<and> text (recs ! i) = clean_ocr_text ocr_text)
              else \<not> ocr_used (recs ! i) \<and> text (recs ! i) = t))
    \<and> (length doc = 3 \<and> get_text (doc ! 0) = Some t0 \<and> get_text (doc ! 1) = Some t1
          \<and> get_text (doc ! 2) = Some t2
          \<and> 50 \<le> len (strip t0) \<and> len (strip t1) < 50 \<and> 50 \<le> len (strip t2)
        \<longrightarrow> \<not> ocr_used (recs ! 0) \<and> ocr_used (recs ! 1) \<and> \<not> ocr_used (recs ! 2))"
proof -
  from assms obtain texts where loop: "pages_loop B doc 0 [] [] = Inr (texts, recs)"
    by (auto simp: extract_from_pdf_with_pages_def split: sum.splits)
  from pages_loop_pages [OF loop] have all: "list_all2 (page_extracted B) doc recs" by simp
  then have l: "length recs = length doc" by (simp add: list_all2_lengthD)
  have each: "page_extracted B (doc ! i) (recs ! i)" if "i < length doc" for i
    using all that by (simp add: list_all2_nthD)
  have a: "\<forall>i < length doc. \<exists>t. get_text (doc ! i) = Some t
          \<and> (if len (strip t) < 50
              then ocr_used (recs ! i)
                   \<and> (\<exists>img_data ocr_text. get_pixmap (doc ! i) (2, 2) = Some img_data
                         \<and> extract_text B img_data True (str ''auto'') = Inr ocr_text
                         \<and> text (recs ! i) = clean_ocr_text ocr_text)
              else \<not> ocr_used (recs ! i) \<and> text (recs ! i) = t)"
  proof (intro allI impI)
    fix i assume "i < length doc"
    from each [OF this] show "\<exists>t. get_text (doc ! i) = Some t
          \<and> (if len (strip t) < 50
              then ocr_used (recs ! i)
                   \<and> (\<exists>img_data ocr_text. get_pixmap (doc ! i) (2, 2) = Some img_data
                         \<and> extract_text B img_data True (str ''auto'') = Inr ocr_text
                         \<and> text (recs ! i) = clean_ocr_text ocr_text)
              else \<not> ocr_used (recs ! i) \<and> text (recs ! i) = t)"
      by (auto simp: page_extracted_def split: option.splits sum.splits if_splits)
  qed
  have b: "\<not> ocr_used (recs ! 0) \<and> ocr_used (recs ! 1) \<and> \<not> ocr_used (recs ! 2)"
    if "length doc = 3 \<and> get_text (doc ! 0) = Some t0 \<and> get_text (doc ! 1) = Some t1
          \<and> get_text (doc ! 2) = Some t2
          \<and> 50 \<le> len (strip t0) \<and> len (strip t1) < 50 \<and> 50 \<le> len (strip t2)"
    using that each [of 0] each [of 1] each [of 2]
    by (auto simp: page_extracted_def split: option.splits sum.splits if_splits)
  from l a b show ?thesis by blast
qed

lemma open_three_pages_eq: "open_three_pages 0 = Some three_pages"
  by (simp add: open_three_pages_def)

theorem scanned_pages_use_ocr_witness:
  "extract_from_pdf_with_pages plain_ocr open_three_pages 0 =
     Inr (str ''The first page has more than fifty characters of text.'' @ [10, 10]
          @ str ''scanned page'' @ [10, 10]
          @ str ''The third page also has more than fifty characters of it.'',
          [\<lparr>text = str ''The first page has more than fifty characters of text.'',
            char_start = 0, char_end = 54, page_number = 1, ocr_used = False\<rparr>,
           \<lparr>text = str ''scanned page'',
            char_start = 56, char_end = 68, page_number = 2, ocr_used = True\<rparr>,
           \<lparr>text = str ''The third page also has more than fifty characters of it.'',
            char_start = 70, char_end = 127, page_number = 3, ocr_used = False\<rparr>])
   \<and> open_three_pages 0 = Some three_pages
   \<and> length three_pages = 3
   \<and> get_text (three_pages ! 1) = Some (str ''2'') \<and> len (strip (str ''2'')) < 50
   \<and> get_pixmap (three_pages ! 1) (2, 2) = Some 2
   \<and> extract_text plain_ocr 2 True (str ''auto'') = Inr (str ''scanned page'')
   \<and> clean_ocr_text (str ''scanned page'') = str ''scanned page''
   \<and> 50 \<le> len (strip (str ''The first page has more than fifty characters of text.''))
   \<and> 50 \<le> len (strip (str ''The third page also has more than fifty characters of it.''))"
  using scanned_pages_use_ocr [OF extract_three_pages open_three_pages_eq,
      of "str ''The first page has more than fifty characters of text.''" "str ''2''"
         "str ''The third page also has more than fifty characters of it.''"]
    extract_three_pages
  by (simp add: open_three_pages_def three_pages_def plain_ocr_def extract_text_def
      load_image_def ocr_image_def is_poor_result_def truediv_def split_ws_def
      clean_ocr_text_def str_def strip_def py_isspace_def len_def Let_def)


section \<open>Properties of the chunker\<close>

text \<open>
  What holds: a chunk that \<open>find\<close> locates has its text at its span; the records of
  \<open>chunk_text_with_pages\<close> carry exactly the chunks that \<open>chunk_text\<close> keeps, in order;
  and each has a trimmed length above 20.
\<close>

lemma find_first_Some:
  "find_first sub xs = Some k \<Longrightarrow> k + length sub \<le> length xs \<and> take (length sub) (drop k xs) = sub"
proof (induction xs arbitrary: k)
  case Nil
  then show ?case by (simp split: if_splits)
next
  case (Cons x xs)
  show ?case
  proof (cases "take (length sub) (x # xs) = sub")
    case True
    then have "length (take (length sub) (x # xs)) = length sub" by simp
    then have "length sub \<le> length (x # xs)" by simp
    with True Cons.prems show ?thesis by simp
  next
    case False
    with Cons.prems obtain j where "find_first sub xs = Some j" "k = Suc j" by auto
    with Cons.IH [of j] show ?thesis by simp
  qed
qed

lemma find_found:
  assumes "find s sub start = i" and "0 \<le> i"
  shows "slice s i (i + len sub) = sub"
proof -
  let ?b = "adjust (len s) start"
  have b0: "0 \<le> ?b" by (simp add: adjust_def)
  from assms have le: "?b \<le> len s"
    by (auto simp: find_def Let_def split: if_splits)
  with assms obtain k where k: "find_first sub (drop (nat ?b) s) = Some k" and i: "i = ?b + int k"
    by (auto simp: find_def Let_def split: if_splits option.splits)
  from find_first_Some [OF k]
  have bound: "k + length sub \<le> length s - nat ?b"
    and tk: "take (length sub) (drop (k + nat ?b) s) = sub" by simp_all
  have n: "nat i = k + nat ?b" using i b0 by simp
  from bound le b0 have hi: "i + len sub \<le> len s"
    unfolding i len_def by linarith
  have "slice s i (i + len sub) = take (length sub) (drop (nat i) s)"
    using hi assms(2) by (simp add: slice_def adjust_def len_def Let_def min_def)
  with tk n show ?thesis by simp
qed

lemma chunks_loop_found:
  assumes "\<forall>r \<in> set acc. 0 \<le> char_start r \<longrightarrow> slice txt (char_start r) (char_end r) = text r"
  shows "\<forall>r \<in> set (chunks_loop txt page_info chunks pos acc).
           0 \<le> char_start r \<longrightarrow> slice txt (char_start r) (char_end r) = text r"
  using assms
proof (induction chunks arbitrary: pos acc)
  case Nil
  then show ?case by simp
next
  case (Cons chunk chunks)
  show ?case
  proof (cases "len (strip chunk) \<le> 20")
    case True
    with Cons.IH [OF Cons.prems] show ?thesis by simp
  next
    case False
    let ?r = "\<lparr>text = chunk, char_start = find txt chunk pos,
               char_end = find txt chunk pos + len chunk,
               pages = find_chunk_pages (find txt chunk pos) (find txt chunk pos + len chunk)
                         page_info\<rparr>"
    have "\<forall>r \<in> set (acc @ [?r]).
            0 \<le> char_start r \<longrightarrow> slice txt (char_start r) (char_end r) = text r"
      using Cons.prems find_found [of "txt" chunk pos] by auto
    from Cons.IH [OF this] False show ?thesis by (simp add: Let_def)
  qed
qed

lemma chunks_loop_texts:
  "map text (chunks_loop txt page_info chunks pos acc) =
     map text acc @ filter (\<lambda>chunk. len (strip chunk) > 20) chunks"
  by (induction chunks arbitrary: pos acc) (simp_all add: Let_def)

lemma chunk_text_min_length:
  "chunk_text split txt chunk_size chunk_overlap = Inr chunks
   \<Longrightarrow> \<forall>chunk \<in> set chunks. len (strip chunk) > 20"
  by (auto simp: chunk_text_def split: sum.splits)

lemma chunk_records_min_length:
  assumes "chunk_text_with_pages split txt page_info chunk_size chunk_overlap = Inr records"
  shows "\<forall>r \<in> set records. len (strip (text r)) > 20"
proof -
  from assms obtain chunks where "records = chunks_loop txt page_info chunks 0 []"
    by (auto simp: chunk_text_with_pages_def split: sum.splits)
  then have "map text records = filter (\<lambda>chunk. len (strip chunk) > 20) chunks"
    by (simp add: chunks_loop_texts)
  then have "set (map text records) \<subseteq> {chunk. len (strip chunk) > 20}" by auto
  then show ?thesis by auto
qed

lemma chunk_records_texts:
  "chunk_text_with_pages split txt page_info chunk_size chunk_overlap = Inr records
   \<Longrightarrow> chunk_text split txt chunk_size chunk_overlap = Inr (map text records)"
  by (auto simp: chunk_text_with_pages_def chunk_text_def chunks_loop_texts split: sum.splits)

lemma chunk_records_found:
  assumes "chunk_text_with_pages split txt page_info chunk_size chunk_overlap = Inr records"
  shows "\<forall>r \<in> set records.
           0 \<le> char_start r \<longrightarrow> slice txt (char_start r) (char_end r) = text r"
proof -
  from assms obtain chunks where "records = chunks_loop txt page_info chunks 0 []"
    by (auto simp: chunk_text_with_pages_def split: sum.splits)
  then show ?thesis using chunks_loop_found [of "[]" "txt" page_info chunks 0] by simp
qed

text \<open>
  C1. The second chunk overlaps the first: it starts at 26, before the end of the first
  match at 30, where the scan resumes. \<open>find\<close> returns \<open>-1\<close>, which is stored as
  \<open>char_start\<close>; the record's span is \<open>-1\<close> to 28, the slice of the text there is empty,
  and the chunk's text is at 26 to 55.
\<close>

theorem chunk_span_lost:
  "chunk_text_with_pages overlap_split overlap_text overlap_pages (Some 30) (Some 10) =
     Inr [\<lparr>text = str ''alpha bravo charlie delta echo'', char_start = 0, char_end = 30,
           pages = [1]\<rparr>,
          \<lparr>text = str ''echo foxtrot golf hotel india'', char_start = - 1, char_end = 28,
           pages = [1]\<rparr>]
   \<and> slice overlap_text (- 1) 28 = []
   \<and> slice overlap_text 26 55 = str ''echo foxtrot golf hotel india''"
  by (simp add: chunk_text_with_pages_def choose_splitter_def truthy_def or_default_def
      overlap_split_def overlap_text_def overlap_pages_def find_chunk_pages_def
      find_def slice_def adjust_def str_def strip_def py_isspace_def len_def Let_def)

text \<open>
  C8. The fragment \<open>echo foxtrot\<close> overlaps the chunk before it and does not occur after
  position 30: \<open>find\<close> returns \<open>-1\<close> and the scan position becomes \<open>-1 + 12 = 11\<close>, behind
  the previous match. The next chunk, the second paragraph at 40 to 62 on page 2, is
  then found at 12 to 34 inside the first paragraph and is given page 1; scanning on
  from 30 finds it at 40.
\<close>

theorem short_fragment_moves_scan_back:
  "find fragment_text (str ''echo foxtrot'') 30 = - 1
   \<and> chunk_text_with_pages fragment_split fragment_text fragment_pages (Some 30) (Some 10) =
     Inr [\<lparr>text = str ''alpha bravo charlie delta echo'', char_start = 0, char_end = 30,
           pages = [1]\<rparr>,
          \<lparr>text = str ''charlie delta echo fox'', char_start = 12, char_end = 34,
           pages = [1]\<rparr>]
   \<and> find fragment_text (str ''charlie delta echo fox'') 30 = 40"
  by (simp add: chunk_text_with_pages_def choose_splitter_def truthy_def or_default_def
      fragment_split_def fragment_text_def fragment_pages_def find_chunk_pages_def
      find_def slice_def adjust_def str_def strip_def py_isspace_def len_def Let_def)

end
